theory Spec2Isabelle
  imports Main "HOL-Library.Sublist" "HOL-Library.AList"
begin

section \<open>Strings\<close>

text \<open>
  A Python \<^verbatim>\<open>str\<close> is modelled by its UTF-8 bytes; the literals of the source that are
  not ASCII are written byte by byte. \<^verbatim>\<open>a in b\<close> on strings is the substring test, which
  on UTF-8 agrees with the test on code points.
\<close>

fun contains :: "string \<Rightarrow> string \<Rightarrow> bool" where
  "contains sub [] = (sub = [])"
| "contains sub (c # cs) = (prefix sub (c # cs) \<or> contains sub cs)"

text \<open>
  \<^verbatim>\<open>str.lower()\<close> on the ASCII range: the letters \<open>A\<close> to \<open>Z\<close> are lowered. Python
  also lowers letters beyond ASCII; no property below depends on which characters the
  function touches.
\<close>

definition lower_char :: "char \<Rightarrow> char" where
  "lower_char c =
     (let n = (of_char c :: nat) in if 65 \<le> n \<and> n \<le> 90 then char_of (n + 32) else c)"

definition lower :: "string \<Rightarrow> string" where
  "lower s = map lower_char s"

text \<open>
  \<^verbatim>\<open>str.strip()\<close> removes the leading and trailing characters for which
  \<^verbatim>\<open>str.isspace()\<close> holds: \<open>U+0009\<close> to \<open>U+000D\<close>, \<open>U+001C\<close> to \<open>U+0020\<close>,
  \<open>U+0085\<close>, \<open>U+00A0\<close>, \<open>U+1680\<close>, \<open>U+2000\<close> to \<open>U+200A\<close>, \<open>U+2028\<close>,
  \<open>U+2029\<close>, \<open>U+202F\<close>, \<open>U+205F\<close> and \<open>U+3000\<close>, here in their UTF-8 encodings.
  A lead byte of UTF-8 is never a continuation byte, so an encoding at the end of the
  bytes is the last character.
\<close>

definition whitespace :: "string list" where
  "whitespace =
     map (\<lambda>c. [c])
       [CHR 0x09, CHR 0x0A, CHR 0x0B, CHR 0x0C, CHR 0x0D,
        CHR 0x1C, CHR 0x1D, CHR 0x1E, CHR 0x1F, CHR 0x20] @
     [[CHR 0xC2, CHR 0x85], [CHR 0xC2, CHR 0xA0], [CHR 0xE1, CHR 0x9A, CHR 0x80]] @
     map (\<lambda>c. [CHR 0xE2, CHR 0x80, c])
       [CHR 0x80, CHR 0x81, CHR 0x82, CHR 0x83, CHR 0x84, CHR 0x85, CHR 0x86, CHR 0x87,
        CHR 0x88, CHR 0x89, CHR 0x8A, CHR 0xA8, CHR 0xA9, CHR 0xAF] @
     [[CHR 0xE2, CHR 0x81, CHR 0x9F], [CHR 0xE3, CHR 0x80, CHR 0x80]]"

function lstrip_with :: "string list \<Rightarrow> string \<Rightarrow> string" where
  "lstrip_with ws s =
     (case find (\<lambda>w. w \<noteq> [] \<and> prefix w s) ws of
        None \<Rightarrow> s
      | Some w \<Rightarrow> lstrip_with ws (drop (length w) s))"
  by pat_completeness auto
termination
  by (relation "measure (\<lambda>(ws, s). length s)") (auto simp: find_Some_iff prefix_def)

declare lstrip_with.simps [simp del]

definition strip :: "string \<Rightarrow> string" where
  "strip s = rev (lstrip_with (map rev whitespace) (rev (lstrip_with whitespace s)))"

text \<open>A double quote, for the selectors that contain one.\<close>

definition quoted :: "string \<Rightarrow> string" where
  "quoted s = CHR 0x22 # s @ [CHR 0x22]"

text \<open>
  The values of the result dictionaries: strings, booleans, lists of strings, and
  \<^verbatim>\<open>None\<close>. A dictionary is the list of its items in insertion order;
  \<^verbatim>\<open>d[k] = v\<close> is \<^const>\<open>AList.update\<close>, which keeps the place of a key already there.
\<close>

datatype pyval = PStr string | PBool bool | PList "string list" | PNone

type_synonym pydict = "(string \<times> pyval) list"

section \<open>The retry policy of the HTTP transport\<close>

text \<open>
  Source: \<^verbatim>\<open>AsylumAppointmentBotRequests._make_request_with_retry\<close> in
  \<^verbatim>\<open>asylum_bot_requests.py\<close>.

  One attempt of the loop body either raises inside the \<^verbatim>\<open>try\<close> block or obtains a
  response with a status. The three handlers of the source are
  \<^verbatim>\<open>aiohttp.ClientConnectorError\<close>, \<^verbatim>\<open>aiohttp.ServerTimeoutError\<close> and the
  catch-all \<^verbatim>\<open>Exception\<close>; the exception type has one constructor for each. A
  response with a status below 400 is read with \<^verbatim>\<open>response.read()\<close>, which is inside
  the same \<^verbatim>\<open>try\<close> and may raise as well.
\<close>

datatype exn = ClientConnectorError | ServerTimeoutError | OtherException

datatype 'c outcome =
    Raises exn
  | Responds int "exn + 'c" string
    \<comment> \<open>status, result of \<^verbatim>\<open>response.read()\<close>, \<^verbatim>\<open>str(response.url)\<close>\<close>

text \<open>Form data is a Python dict of strings: keys unique, insertion order kept.\<close>

type_synonym form_data = "(string \<times> string) list"

text \<open>The keyword arguments of a request: none, or \<^verbatim>\<open>data=form_data\<close>.\<close>

type_synonym kwargs = "form_data option"

text \<open>
  The network is an oracle: what the \<open>attempt\<close>-th execution of \<^verbatim>\<open>session.request\<close>
  for a given method, URL and keyword arguments yields.
\<close>

type_synonym 'c network = "string \<Rightarrow> string \<Rightarrow> kwargs \<Rightarrow> nat \<Rightarrow> 'c outcome"

text \<open>The observable effects: \<^verbatim>\<open>asyncio.sleep(delay)\<close> and \<^verbatim>\<open>session.request(...)\<close>.\<close>

datatype event = Sleep int | Request string string kwargs

type_synonym 'c response = "'c \<times> string \<times> int"

fun retry_loop ::
  "'c network \<Rightarrow> string \<Rightarrow> string \<Rightarrow> int \<Rightarrow> kwargs \<Rightarrow> nat list \<Rightarrow> event list \<times> 'c response option"
where
  "retry_loop net method url max_retries kw [] = ([], None)"
| "retry_loop net method url max_retries kw (attempt # rest) =
    (let evs = (if attempt > 0 then [Sleep (min (2 ^ attempt) 6)] else [])
                 @ [Request method url kw];
         next_attempt =
           (if int attempt = max_retries - 1 then (evs, None)
            else (case retry_loop net method url max_retries kw rest of
                    (evs', r) \<Rightarrow> (evs @ evs', r)))
     in case net method url kw attempt of
          Responds status body final_url \<Rightarrow>
            if status \<ge> 500 then next_attempt
            else if status \<ge> 400 then (evs, None)
            else (case body of
                    Inr content \<Rightarrow> (evs, Some (content, final_url, status))
                  | Inl ClientConnectorError \<Rightarrow> next_attempt
                  | Inl ServerTimeoutError \<Rightarrow> next_attempt
                  | Inl OtherException \<Rightarrow> next_attempt)
        | Raises ClientConnectorError \<Rightarrow> next_attempt
        | Raises ServerTimeoutError \<Rightarrow> next_attempt
        | Raises OtherException \<Rightarrow> next_attempt)"

text \<open>\<^verbatim>\<open>for attempt in range(max_retries)\<close>; the loop falling through returns \<^verbatim>\<open>None\<close>.\<close>

definition make_request_with_retry ::
  "'c network \<Rightarrow> string \<Rightarrow> string \<Rightarrow> int \<Rightarrow> kwargs \<Rightarrow> event list \<times> 'c response option"
where
  "make_request_with_retry net method url max_retries kw =
     retry_loop net method url max_retries kw [0..<nat max_retries]"

text \<open>
  What one attempt does before its outcome is known, with attempts counted from 1 as in
  the log messages: a pause before every attempt but the first, then the request.
\<close>

definition attempt_events :: "string \<Rightarrow> string \<Rightarrow> kwargs \<Rightarrow> nat \<Rightarrow> event list" where
  "attempt_events method url kw n =
     (if 2 \<le> n then [Sleep (min (2 ^ (n - 1)) 6)] else []) @ [Request method url kw]"

text \<open>The events of attempts \<open>1\<close> to \<open>m\<close>, none of which ends the loop.\<close>

definition backoff_schedule :: "string \<Rightarrow> string \<Rightarrow> kwargs \<Rightarrow> nat \<Rightarrow> event list" where
  "backoff_schedule method url kw m = concat (map (attempt_events method url kw) [1..<Suc m])"

fun is_request :: "event \<Rightarrow> bool" where
  "is_request (Request _ _ _) = True"
| "is_request (Sleep _) = False"

fun delays :: "event list \<Rightarrow> int list" where
  "delays [] = []"
| "delays (Sleep d # evs) = d # delays evs"
| "delays (Request _ _ _ # evs) = delays evs"

text \<open>Classes of outcomes of one attempt.\<close>

definition server_error :: "'c outcome \<Rightarrow> bool" where
  "server_error out = (case out of Responds status _ _ \<Rightarrow> status \<ge> 500 | Raises _ \<Rightarrow> False)"

definition client_error :: "'c outcome \<Rightarrow> bool" where
  "client_error out =
     (case out of Responds status _ _ \<Rightarrow> 400 \<le> status \<and> status < 500 | Raises _ \<Rightarrow> False)"

definition succeeded :: "'c outcome \<Rightarrow> bool" where
  "succeeded out =
     (case out of Raises _ \<Rightarrow> False | Responds status body _ \<Rightarrow> status < 400 \<and> \<not> isl body)"

definition failed :: "'c outcome \<Rightarrow> bool" where
  "failed out =
     (case out of Raises _ \<Rightarrow> True | Responds status body _ \<Rightarrow> status \<ge> 400 \<or> isl body)"

text \<open>
  The failures the specification calls transient: a connection failure, a timeout, or a
  server error status.
\<close>

definition spec_transient :: "'c outcome \<Rightarrow> bool" where
  "spec_transient out =
     (case out of
        Raises ClientConnectorError \<Rightarrow> True
      | Raises ServerTimeoutError \<Rightarrow> True
      | Raises OtherException \<Rightarrow> False
      | Responds status _ _ \<Rightarrow> status \<ge> 500)"

text \<open>What the handlers and the 5xx branch do: give up on the last attempt, go on otherwise.\<close>

definition retry_or_give_up ::
  "'c network \<Rightarrow> string \<Rightarrow> string \<Rightarrow> int \<Rightarrow> kwargs \<Rightarrow> nat \<Rightarrow> nat list
     \<Rightarrow> event list \<times> 'c response option"
where
  "retry_or_give_up net method url max_retries kw attempt rest =
     (if int attempt = max_retries - 1 then (attempt_events method url kw (Suc attempt), None)
      else (attempt_events method url kw (Suc attempt)
              @ fst (retry_loop net method url max_retries kw rest),
            snd (retry_loop net method url max_retries kw rest)))"

text \<open>Networks for the concrete runs.\<close>

definition always_503 :: "string network" where
  "always_503 method url kw attempt = Responds 503 (Inr ''Service Unavailable'') url"

definition always_404 :: "string network" where
  "always_404 method url kw attempt = Responds 404 (Inr ''Not Found'') url"

definition unexpected_then_ok :: "string network" where
  "unexpected_then_ok method url kw attempt =
     (if attempt = 0 then Raises OtherException else Responds 200 (Inr ''<html>'') url)"

definition flaky_then_ok :: "string network" where
  "flaky_then_ok method url kw attempt =
     (if attempt < 2 then Responds 503 (Inr []) url else Responds 200 (Inr ''<html>'') url)"

section \<open>The HTTP pipeline\<close>

text \<open>
  Source: \<^verbatim>\<open>AsylumAppointmentBotRequests.check_province_appointments\<close> in
  \<^verbatim>\<open>asylum_bot_requests.py\<close>. The content of a response is represented by what
  \<^verbatim>\<open>BeautifulSoup(content, 'html.parser')\<close> makes of it: the first form with its
  \<^verbatim>\<open>input\<close> and \<^verbatim>\<open>select\<close> tags in document order, the text of the page, the
  class lists of its tables, and all its \<^verbatim>\<open>input\<close> and \<^verbatim>\<open>select\<close> tags.
\<close>

record option_tag =
  option_text :: string
  option_value :: "string option"

record field_tag =
  tag_name :: string
  name_attr :: "string option"
  type_attr :: "string option"
  value_attr :: "string option"
  option_tags :: "option_tag list"

record form_tag =
  action_attr :: "string option"
  field_tags :: "field_tag list"

record soup =
  first_form :: "form_tag option"
  get_text :: string
  table_classes :: "string list list"
  input_tags :: "field_tag list"

definition base_url :: string where
  "base_url = ''https://icp.administracionelectronica.gob.es/icpplus/acOpcDirect''"

definition origin :: string where
  "origin = ''https://icp.administracionelectronica.gob.es''"

text \<open>\<^verbatim>\<open>tag.get(attr, '')\<close>.\<close>

definition get_or_empty :: "string option \<Rightarrow> string" where
  "get_or_empty v = (case v of None \<Rightarrow> [] | Some s \<Rightarrow> s)"

text \<open>
  The loop over \<^verbatim>\<open>form.find_all(['input', 'select'])\<close> that fills \<^verbatim>\<open>form_data\<close>; the
  inner loop over the options stops at the first option whose stripped text is the
  province.
\<close>

definition form_entry :: "string \<Rightarrow> field_tag \<Rightarrow> form_data \<Rightarrow> form_data" where
  "form_entry province input_tag form_data =
     (case name_attr input_tag of
        None \<Rightarrow> form_data
      | Some name \<Rightarrow>
          if name = [] then form_data
          else if tag_name input_tag = ''select'' \<and> name = ''provincia'' then
            (case find (\<lambda>opt. strip (option_text opt) = province) (option_tags input_tag) of
               Some opt \<Rightarrow> AList.update name (get_or_empty (option_value opt)) form_data
             | None \<Rightarrow> form_data)
          else if type_attr input_tag = Some ''hidden'' then
            AList.update name (get_or_empty (value_attr input_tag)) form_data
          else if type_attr input_tag = Some ''submit'' then form_data
          else AList.update name (get_or_empty (value_attr input_tag)) form_data)"

fun fill_form_data :: "string \<Rightarrow> field_tag list \<Rightarrow> form_data \<Rightarrow> form_data" where
  "fill_form_data province [] form_data = form_data"
| "fill_form_data province (input_tag # tags) form_data =
     fill_form_data province tags (form_entry province input_tag form_data)"

text \<open>The action URL of the form, made absolute when it starts with a slash.\<close>

definition form_action_url :: "form_tag \<Rightarrow> string" where
  "form_action_url form =
     (let action_url = get_or_empty (action_attr form)
      in if prefix ''/'' action_url then origin @ action_url else action_url)"

text \<open>The phrase lists of the HTTP variant, as the source file has them.\<close>

definition no_appointment_indicators_requests :: "string list" where
  "no_appointment_indicators_requests =
     [''no hay citas disponibles'',
      ''no hay citas libres'',
      ''en este momento no hay citas disponibles'',
      ''no quedan citas libres'',
      ''todas las citas est'' @ [CHR 0xE2, CHR 0x88, CHR 0x9A, CHR 0xC2, CHR 0xB0] @ ''n ocupadas'']"

definition appointment_indicators :: "string list" where
  "appointment_indicators =
     [''citas disponibles'', ''citas libres'', ''seleccione una fecha'', ''calendario'',
      ''fecha disponible'']"

text \<open>
  The block that reads the page reached after the province was submitted
  (\<^verbatim>\<open>page_text = soup.get_text().lower()\<close> onwards). \<open>now\<close> is
  \<^verbatim>\<open>datetime.now().isoformat()\<close>.
\<close>

definition calendar_tables :: "soup \<Rightarrow> string list list" where
  "calendar_tables page =
     filter (\<lambda>classes. list_ex (\<lambda>c. c = ''calendario'' \<or> c = ''calendar'') classes)
       (table_classes page)"

definition date_inputs :: "soup \<Rightarrow> field_tag list" where
  "date_inputs page =
     filter (\<lambda>t. case name_attr t of
                    None \<Rightarrow> False
                  | Some x \<Rightarrow> x \<noteq> [] \<and> contains ''fecha'' (lower x))
       (input_tags page)"

definition read_service_page :: "string \<Rightarrow> string \<Rightarrow> string \<Rightarrow> soup \<Rightarrow> pydict option" where
  "read_service_page now province response_url page =
     (let page_text = lower (get_text page) in
      if list_ex (\<lambda>indicator. contains indicator page_text) no_appointment_indicators_requests
      then None
      else if list_ex (\<lambda>indicator. contains indicator page_text) appointment_indicators then
        (let appointment_info =
               [(''province'', PStr province),
                (''timestamp'', PStr now),
                (''page_url'', PStr response_url),
                (''found_via'', PStr ''Async HTTP requests with retry logic''),
                (''status'', PStr ''appointments_detected'')];
             appointment_info =
               (if calendar_tables page \<noteq> []
                then AList.update ''calendar_found'' (PBool True) appointment_info
                else appointment_info);
             appointment_info =
               (if date_inputs page \<noteq> []
                then AList.update ''date_selection_available'' (PBool True) appointment_info
                else appointment_info)
         in Some appointment_info)
      else None)"

text \<open>
  The whole check of one province. Both requests use the default of three attempts. The
  events of the two calls are returned with the result.
\<close>

definition check_province_appointments_requests ::
  "soup network \<Rightarrow> string \<Rightarrow> string \<Rightarrow> event list \<times> pydict option"
where
  "check_province_appointments_requests net now province =
     (case make_request_with_retry net ''GET'' base_url 3 None of
        (evs, None) \<Rightarrow> (evs, None)
      | (evs, Some (content, url, status)) \<Rightarrow>
          (case first_form content of
             None \<Rightarrow> (evs, None)
           | Some form \<Rightarrow>
               (let action_url = form_action_url form;
                    form_data = fill_form_data province (field_tags form) []
                in if map_of form_data ''provincia'' = None then (evs, None)
                   else
                     (case make_request_with_retry net ''POST''
                             (if action_url \<noteq> [] then action_url else base_url) 3
                             (Some form_data) of
                        (evs', None) \<Rightarrow> (evs @ evs', None)
                      | (evs', Some (response_content, response_url, response_status)) \<Rightarrow>
                          if contains ''citar?p=4&locale=es'' response_url
                          then (evs @ evs',
                                read_service_page now province response_url response_content)
                          else (evs @ evs', None)))))"

text \<open>Notions for stating what the extraction of the form does.\<close>

definition is_province_select :: "field_tag \<Rightarrow> bool" where
  "is_province_select t = (tag_name t = ''select'' \<and> name_attr t = Some ''provincia'')"

definition matching_option :: "string \<Rightarrow> field_tag \<Rightarrow> option_tag option" where
  "matching_option province t = find (\<lambda>opt. strip (option_text opt) = province) (option_tags t)"

definition province_listed :: "string \<Rightarrow> form_tag \<Rightarrow> bool" where
  "province_listed province form =
     list_ex (\<lambda>t. is_province_select t \<and> matching_option province t \<noteq> None) (field_tags form)"

definition other_provincia_field :: "form_tag \<Rightarrow> bool" where
  "other_provincia_field form =
     list_ex (\<lambda>t. name_attr t = Some ''provincia'' \<and> tag_name t \<noteq> ''select'') (field_tags form)"

text \<open>
  A hidden input, whatever the case of the letters of its type attribute; an input whose
  type attribute is the string \<^verbatim>\<open>submit\<close>, which is what the source compares with.
\<close>

definition is_hidden_input :: "field_tag \<Rightarrow> bool" where
  "is_hidden_input t =
     (tag_name t = ''input'' \<and>
      (case type_attr t of None \<Rightarrow> False | Some ty \<Rightarrow> lower ty = ''hidden''))"

definition is_submit_input :: "field_tag \<Rightarrow> bool" where
  "is_submit_input t = (tag_name t = ''input'' \<and> type_attr t = Some ''submit'')"

definition sets_field :: "string \<Rightarrow> field_tag \<Rightarrow> string \<Rightarrow> bool" where
  "sets_field province t n =
     (name_attr t = Some n \<and> n \<noteq> [] \<and>
      (if is_province_select t then matching_option province t \<noteq> None
       else type_attr t \<noteq> Some ''submit''))"

definition entry_value :: "string \<Rightarrow> field_tag \<Rightarrow> string" where
  "entry_value province t =
     (if is_province_select t
      then (case matching_option province t of
              Some opt \<Rightarrow> get_or_empty (option_value opt) | None \<Rightarrow> [])
      else get_or_empty (value_attr t))"

fun is_post :: "event \<Rightarrow> bool" where
  "is_post (Request m _ _) = (m = ''POST'')"
| "is_post (Sleep _) = False"

text \<open>Forms, pages and a portal for the concrete runs.\<close>

definition select_tag :: "string \<Rightarrow> (string \<times> string) list \<Rightarrow> field_tag" where
  "select_tag n opts =
     \<lparr>tag_name = ''select'', name_attr = Some n, type_attr = None, value_attr = None,
      option_tags = map (\<lambda>(t, v). \<lparr>option_text = t, option_value = Some v\<rparr>) opts\<rparr>"

definition input_tag :: "string \<Rightarrow> string option \<Rightarrow> string \<Rightarrow> field_tag" where
  "input_tag ty n v =
     \<lparr>tag_name = ''input'', name_attr = n, type_attr = Some ty, value_attr = Some v,
      option_tags = []\<rparr>"

definition portal_form :: form_tag where
  "portal_form =
     \<lparr>action_attr = Some ''/icpplus/citar?p=4&locale=es'',
      field_tags =
        [select_tag ''provincia'' [('' Albacete '', ''2''), (''Madrid'', ''28'')],
         input_tag ''hidden'' (Some ''token'') ''abc'',
         input_tag ''submit'' (Some ''btnAceptar'') ''Aceptar'']\<rparr>"

definition odd_form :: form_tag where
  "odd_form =
     \<lparr>action_attr = Some ''/icpplus/citar?p=4&locale=es'',
      field_tags =
        [select_tag ''provincia'' [(''Madrid'', ''28'')],
         input_tag ''hidden'' (Some ''provincia'') ''0'']\<rparr>"

definition repeated_form :: form_tag where
  "repeated_form =
     \<lparr>action_attr = None,
      field_tags =
        [input_tag ''hidden'' None ''a'',
         input_tag ''hidden'' (Some ''token'') ''b'',
         input_tag ''hidden'' (Some ''token'') ''c'',
         input_tag ''SUBMIT'' (Some ''go'') ''Enviar'']\<rparr>"

definition page_with :: "form_tag option \<Rightarrow> string \<Rightarrow> soup" where
  "page_with f t = \<lparr>first_form = f, get_text = t, table_classes = [], input_tags = []\<rparr>"

definition portal :: "form_tag \<Rightarrow> string \<Rightarrow> soup network" where
  "portal f t meth uri kw attempt =
     (if meth = ''GET'' then Responds 200 (Inr (page_with (Some f) [])) uri
      else Responds 200 (Inr (page_with None t)) uri)"

section \<open>The browser pipeline\<close>

text \<open>
  Source: \<^verbatim>\<open>AsylumAppointmentBot\<close> in \<^verbatim>\<open>asylum_bot.py\<close>. Every awaited Playwright call
  is an action. The browser is an oracle: whether the \<open>k\<close>-th call of a check, being a
  given action, returns or raises, and what the queries of the last page return. The
  timeouts passed to the calls are left out; a timeout is a call that raises.
\<close>

datatype action =
    NewPage
  | Goto string
  | WaitForSelector string
  | SelectOption string string
  | Click string
  | WaitForUrl string
  | CheckRadio string
  | Fill string string
  | WaitForLoadState
  | Content
  | QuerySelectorAll string
  | QuerySelector string
  | GetAttribute nat string
  | TextContent
  | CheckElement string
  | ClickElement string
  | ClosePage

record browser =
  completes :: "nat \<Rightarrow> action \<Rightarrow> bool"
  page_content :: string
  date_values :: "string option list"
  office_text :: "string option"
  present :: "string \<Rightarrow> bool"

text \<open>
  \<^item> \<open>page_content\<close> is what \<^verbatim>\<open>page.content()\<close> returns;
  \<^item> \<open>date_values\<close> are the \<^verbatim>\<open>value\<close> attributes of the elements that
    \<^verbatim>\<open>query_selector_all\<close> finds for the date inputs, in page order;
  \<^item> \<open>present\<close> tells whether \<^verbatim>\<open>query_selector\<close> finds an element for a selector;
  \<^item> \<open>office_text\<close> is the \<^verbatim>\<open>text_content()\<close> of the office element.
\<close>

record user_profile =
  passport_number :: string
  full_name :: string
  birth_year :: string
  nationality :: string
  email :: string
  phone :: string

type_synonym trace = "action list"

text \<open>One awaited call: it is recorded, and it returns (\<open>True\<close>) or raises.\<close>

definition call :: "browser \<Rightarrow> action \<Rightarrow> trace \<Rightarrow> bool \<times> trace" where
  "call b a tr = (completes b (length tr) a, tr @ [a])"

text \<open>Calls in sequence inside one \<^verbatim>\<open>try\<close>: the first that raises ends the block.\<close>

fun calls :: "browser \<Rightarrow> action list \<Rightarrow> trace \<Rightarrow> bool \<times> trace" where
  "calls b [] tr = (True, tr)"
| "calls b (a # as) tr =
     (case call b a tr of (True, tr') \<Rightarrow> calls b as tr' | (False, tr') \<Rightarrow> (False, tr'))"

definition and_then :: "bool \<times> trace \<Rightarrow> (trace \<Rightarrow> bool \<times> trace) \<Rightarrow> bool \<times> trace" where
  "and_then r f = (case r of (True, tr) \<Rightarrow> f tr | (False, tr) \<Rightarrow> (False, tr))"

text \<open>The selectors and URL patterns of the source.\<close>

definition province_select :: string where
  "province_select = ''select[name='' @ quoted ''provincia'' @ '']''"

definition accept_button :: string where
  "accept_button = ''input[type='' @ quoted ''submit'' @ ''][value='' @ quoted ''Aceptar'' @ '']''"

definition radio_input :: string where
  "radio_input = ''input[type='' @ quoted ''radio'' @ '']''"

definition police_radio :: string where
  "police_radio = ''input[type='' @ quoted ''radio'' @ ''][value*='' @ quoted ''POLICIA'' @ '']''"

definition asylum_radio :: string where
  "asylum_radio = ''input[type='' @ quoted ''radio'' @ ''][value*='' @ quoted ''ASILO'' @ '']''"

definition enter_button :: string where
  "enter_button = ''input[type='' @ quoted ''submit'' @ ''][value='' @ quoted ''Entrar'' @ '']''"

definition document_type_select :: string where
  "document_type_select = ''select[name='' @ quoted ''rdbTipoDoc'' @ '']''"

definition passport_field :: string where
  "passport_field = ''input[name='' @ quoted ''txtIdCitado'' @ '']''"

definition name_field :: string where
  "name_field = ''input[name='' @ quoted ''txtDesCitado'' @ '']''"

definition birth_year_field :: string where
  "birth_year_field = ''input[name='' @ quoted ''txtAnnoCitado'' @ '']''"

definition nationality_select :: string where
  "nationality_select = ''select[name='' @ quoted ''txtPaisNac'' @ '']''"

definition date_radio :: string where
  "date_radio = ''input[type='' @ quoted ''radio'' @ ''][name*='' @ quoted ''fecha'' @ '']''"

definition calendar_selectors :: "string list" where
  "calendar_selectors =
     [''table.calendario'', ''.calendar'', date_radio, ''select[name*='' @ quoted ''fecha'' @ '']'']"

definition office_selector :: string where
  "office_selector = ''.oficina, .office, [contains(text(), '' @ quoted ''Oficina'' @ '')]''"

definition first_appointment :: string where
  "first_appointment = date_radio @ '':first-of-type''"

definition continue_button :: string where
  "continue_button =
     ''input[type='' @ quoted ''submit'' @ ''][value*='' @ quoted ''Siguiente'' @ ''], '' @
     ''input[type='' @ quoted ''submit'' @ ''][value*='' @ quoted ''Continuar'' @ '']''"

definition email_field :: string where
  "email_field = ''input[name*='' @ quoted ''email'' @ ''], input[type='' @ quoted ''email'' @ '']''"

definition phone_field :: string where
  "phone_field = ''input[name*='' @ quoted ''telefono'' @ ''], input[name*='' @ quoted ''phone'' @ '']''"

definition submit_button :: string where
  "submit_button =
     ''input[type='' @ quoted ''submit'' @ ''][value*='' @ quoted ''Enviar'' @ ''], '' @
     ''input[type='' @ quoted ''submit'' @ ''][value*='' @ quoted ''Confirmar'' @ '']''"

subsection \<open>The four steps\<close>

definition select_province :: "browser \<Rightarrow> string \<Rightarrow> trace \<Rightarrow> bool \<times> trace" where
  "select_province b province =
     calls b [WaitForSelector province_select,
              SelectOption province_select province,
              Click accept_button,
              WaitForUrl ''**/citar?p=4&locale=es'']"

definition select_service_type :: "browser \<Rightarrow> trace \<Rightarrow> bool \<times> trace" where
  "select_service_type b =
     calls b [WaitForSelector radio_input,
              CheckRadio police_radio,
              Click accept_button,
              WaitForSelector radio_input,
              CheckRadio asylum_radio,
              Click accept_button,
              WaitForUrl ''**/acInfo'']"

definition proceed_to_entry_form :: "browser \<Rightarrow> trace \<Rightarrow> bool \<times> trace" where
  "proceed_to_entry_form b = calls b [Click enter_button, WaitForUrl ''**/acEntrada'']"

definition fill_user_data :: "browser \<Rightarrow> user_profile \<Rightarrow> trace \<Rightarrow> bool \<times> trace" where
  "fill_user_data b user_data =
     calls b [WaitForSelector document_type_select,
              SelectOption document_type_select ''Pasaporte'',
              Fill passport_field (passport_number user_data),
              Fill name_field (full_name user_data),
              Fill birth_year_field (birth_year user_data),
              SelectOption nationality_select (nationality user_data),
              Click accept_button,
              WaitForLoadState]"

subsection \<open>The availability classifier\<close>

definition no_appointment_indicators :: "string list" where
  "no_appointment_indicators =
     [''No hay citas disponibles'',
      ''no hay citas libres'',
      ''En este momento no hay citas disponibles'',
      ''No quedan citas libres'']"

text \<open>
  The loop over the date elements. An exception of \<^verbatim>\<open>get_attribute\<close> leaves the loop
  with the dates appended so far; a value that is \<^verbatim>\<open>None\<close> or empty is skipped.
\<close>

fun harvest_dates ::
  "browser \<Rightarrow> nat \<Rightarrow> string option list \<Rightarrow> string list \<Rightarrow> trace \<Rightarrow> string list \<times> trace"
where
  "harvest_dates b i [] dates tr = (dates, tr)"
| "harvest_dates b i (v # vs) dates tr =
     (case call b (GetAttribute i ''value'') tr of
        (False, tr') \<Rightarrow> (dates, tr')
      | (True, tr') \<Rightarrow>
          harvest_dates b (Suc i) vs
            (case v of None \<Rightarrow> dates | Some s \<Rightarrow> if s \<noteq> [] then dates @ [s] else dates) tr')"

definition extract_appointment_details :: "browser \<Rightarrow> string \<Rightarrow> trace \<Rightarrow> pydict \<times> trace" where
  "extract_appointment_details b now tr =
     (let appointment_details =
            [(''province'', PStr []), (''dates'', PList []), (''office'', PStr []),
             (''timestamp'', PStr now)];
          (dates, tr1) =
            (case call b (QuerySelectorAll date_radio) tr of
               (False, tr') \<Rightarrow> ([], tr')
             | (True, tr') \<Rightarrow> harvest_dates b 0 (date_values b) [] tr');
          appointment_details = AList.update ''dates'' (PList dates) appointment_details;
          (office, tr2) =
            (case call b (QuerySelector office_selector) tr1 of
               (False, tr') \<Rightarrow> (None, tr')
             | (True, tr') \<Rightarrow>
                 if present b office_selector then
                   (case call b TextContent tr' of
                      (False, tr'') \<Rightarrow> (None, tr'')
                    | (True, tr'') \<Rightarrow>
                        (Some (case office_text b of None \<Rightarrow> PNone | Some t \<Rightarrow> PStr t), tr''))
                 else (None, tr'))
      in (case office of
            None \<Rightarrow> appointment_details
          | Some v \<Rightarrow> AList.update ''office'' v appointment_details,
          tr2))"

text \<open>
  The loop over the calendar selectors: \<^verbatim>\<open>wait_for_selector\<close> returns the element or
  raises after its timeout, and the bare \<^verbatim>\<open>except\<close> goes on to the next selector.
\<close>

fun find_calendar ::
  "browser \<Rightarrow> string \<Rightarrow> string list \<Rightarrow> trace \<Rightarrow> (bool \<times> pydict option) \<times> trace"
where
  "find_calendar b now [] tr = ((False, None), tr)"
| "find_calendar b now (selector # rest) tr =
     (case call b (WaitForSelector selector) tr of
        (True, tr') \<Rightarrow>
          (case extract_appointment_details b now tr' of
             (appointment_info, tr'') \<Rightarrow> ((True, Some appointment_info), tr''))
      | (False, tr') \<Rightarrow> find_calendar b now rest tr')"

definition check_appointment_availability ::
  "browser \<Rightarrow> string \<Rightarrow> trace \<Rightarrow> (bool \<times> pydict option) \<times> trace"
where
  "check_appointment_availability b now tr =
     (case call b WaitForLoadState tr of
        (False, tr') \<Rightarrow> ((False, None), tr')
      | (True, tr') \<Rightarrow>
          (case call b Content tr' of
             (False, tr'') \<Rightarrow> ((False, None), tr'')
           | (True, tr'') \<Rightarrow>
               if list_ex (\<lambda>indicator. contains (lower indicator) (lower (page_content b)))
                    no_appointment_indicators
               then ((False, None), tr'')
               else find_calendar b now calendar_selectors tr''))"

subsection \<open>Best-effort booking\<close>

definition auto_select_appointment :: "browser \<Rightarrow> user_profile \<Rightarrow> trace \<Rightarrow> bool \<times> trace" where
  "auto_select_appointment b user_data tr =
     and_then (call b (QuerySelector first_appointment) tr) (\<lambda>tr.
       if \<not> present b first_appointment then (False, tr)
       else
         and_then (calls b [CheckElement first_appointment, QuerySelector continue_button] tr) (\<lambda>tr.
           if \<not> present b continue_button then (False, tr)
           else
             and_then (calls b [ClickElement continue_button,
                                WaitForLoadState,
                                Fill email_field (email user_data),
                                Fill phone_field (phone user_data),
                                QuerySelector submit_button] tr) (\<lambda>tr.
               if \<not> present b submit_button then (False, tr)
               else call b (ClickElement submit_button) tr)))"

subsection \<open>The check of one province\<close>

text \<open>
  A call of the function returns a value or raises. \<^verbatim>\<open>check_steps\<close> is the body of the
  \<^verbatim>\<open>try\<close> after the page was created; every exception in it is caught and gives
  \<^verbatim>\<open>None\<close>.
\<close>

datatype 'a returned = Raised | Returned 'a

definition check_steps ::
  "browser \<Rightarrow> user_profile \<Rightarrow> string \<Rightarrow> string \<Rightarrow> trace \<Rightarrow> pydict option \<times> trace"
where
  "check_steps b user_data now province tr =
     (case call b (Goto base_url) tr of
        (False, tr) \<Rightarrow> (None, tr)
      | (True, tr) \<Rightarrow>
     (case select_province b province tr of
        (False, tr) \<Rightarrow> (None, tr)
      | (True, tr) \<Rightarrow>
     (case select_service_type b tr of
        (False, tr) \<Rightarrow> (None, tr)
      | (True, tr) \<Rightarrow>
     (case proceed_to_entry_form b tr of
        (False, tr) \<Rightarrow> (None, tr)
      | (True, tr) \<Rightarrow>
     (case fill_user_data b user_data tr of
        (False, tr) \<Rightarrow> (None, tr)
      | (True, tr) \<Rightarrow>
     (case check_appointment_availability b now tr of
        ((True, Some appointment_info), tr) \<Rightarrow>
          if appointment_info \<noteq> [] then
            (let appointment_info = AList.update ''province'' (PStr province) appointment_info
             in case auto_select_appointment b user_data tr of
                  (booking_success, tr) \<Rightarrow>
                    (Some (AList.update ''booking_attempted'' (PBool booking_success)
                             appointment_info), tr))
          else (None, tr)
      | (_, tr) \<Rightarrow> (None, tr)))))))"

text \<open>
  When the page cannot be created there is nothing to close. Otherwise \<^verbatim>\<open>page.close()\<close>
  is awaited in the \<^verbatim>\<open>finally\<close> block, outside every handler: when it raises, its
  exception replaces the value being returned and reaches the caller.
\<close>

definition check_province_appointments ::
  "browser \<Rightarrow> user_profile \<Rightarrow> string \<Rightarrow> string \<Rightarrow> pydict option returned \<times> trace"
where
  "check_province_appointments b user_data now province =
     (case call b NewPage [] of
        (False, tr) \<Rightarrow> (Returned None, tr)
      | (True, tr) \<Rightarrow>
          (case check_steps b user_data now province tr of
             (result, tr) \<Rightarrow>
               (case call b ClosePage tr of
                  (True, tr) \<Rightarrow> (Returned result, tr)
                | (False, tr) \<Rightarrow> (Raised, tr))))"


definition info_keys :: "string list" where
  "info_keys = [''province'', ''dates'', ''office'', ''timestamp'']"



text \<open>
  The calls of the four steps as the source makes them, in one list: opening the start
  page, then province selection, service selection, entry form and user data, each
  ending with the wait that validates the next page.
\<close>

definition navigation_calls :: "string \<Rightarrow> user_profile \<Rightarrow> action list" where
  "navigation_calls province user_data =
     [Goto base_url,
      WaitForSelector province_select,
      SelectOption province_select province,
      Click accept_button,
      WaitForUrl ''**/citar?p=4&locale=es'',
      WaitForSelector radio_input,
      CheckRadio police_radio,
      Click accept_button,
      WaitForSelector radio_input,
      CheckRadio asylum_radio,
      Click accept_button,
      WaitForUrl ''**/acInfo'',
      Click enter_button,
      WaitForUrl ''**/acEntrada'',
      WaitForSelector document_type_select,
      SelectOption document_type_select ''Pasaporte'',
      Fill passport_field (passport_number user_data),
      Fill name_field (full_name user_data),
      Fill birth_year_field (birth_year user_data),
      SelectOption nationality_select (nationality user_data),
      Click accept_button,
      WaitForLoadState]"




text \<open>A profile and browsers for the concrete runs.\<close>

definition profile :: user_profile where
  "profile =
     \<lparr>passport_number = ''X0000000'', full_name = ''JANE DOE'', birth_year = ''1990'',
      nationality = ''Venezuela'', email = ''jane@example.org'', phone = ''600000000''\<rparr>"

definition slots_browser :: browser where
  "slots_browser =
     \<lparr>completes = (\<lambda>k a. True),
      page_content = ''<html><body>Seleccione una fecha</body></html>'',
      date_values = [Some ''2024-05-01'', Some ''2024-05-02'', Some ''2024-05-03''],
      office_text = None,
      present = (\<lambda>sel. sel \<noteq> submit_button \<and> sel \<noteq> office_selector)\<rparr>"

definition no_slots_browser :: browser where
  "no_slots_browser =
     slots_browser\<lparr>page_content := ''<html><body>NO HAY CITAS DISPONIBLES</body></html>''\<rparr>"

definition stuck_browser :: browser where
  "stuck_browser = slots_browser\<lparr>completes := (\<lambda>k a. a \<noteq> WaitForUrl ''**/acInfo'')\<rparr>"



definition close_fails_browser :: browser where
  "close_fails_browser =
     slots_browser\<lparr>completes := (\<lambda>k a. a \<noteq> WaitForUrl ''**/acInfo'' \<and> a \<noteq> ClosePage)\<rparr>"

section \<open>The check cycle\<close>

text \<open>
  Source: \<^verbatim>\<open>run_single_check\<close> of both classes. The check of a province and the
  notification are oracles here, given the position in the loop and the province: either
  may raise or return, so the loop is modelled for every behaviour of the check, the two
  pipelines above included. A check returns \<^verbatim>\<open>None\<close> or a dictionary.
\<close>

datatype cycle_event = Checked string | Notified string pydict | Paused int

type_synonym checker = "nat \<Rightarrow> string \<Rightarrow> pydict option returned"

type_synonym notifier = "nat \<Rightarrow> string \<Rightarrow> pydict \<Rightarrow> bool returned"

text \<open>
  The loop over the provinces, with the events and \<^verbatim>\<open>found_appointments\<close>. The handler
  of the loop body catches what the check or the notification raises; the pause of two
  seconds follows in every case.
\<close>

fun check_all ::
  "checker \<Rightarrow> notifier \<Rightarrow> nat \<Rightarrow> string list \<Rightarrow> cycle_event list \<times> pydict list"
where
  "check_all check notify i [] = ([], [])"
| "check_all check notify i (province # rest) =
     (let (evs, found) =
            (case check i province of
               Raised \<Rightarrow> ([Checked province], [])
             | Returned None \<Rightarrow> ([Checked province], [])
             | Returned (Some appointment_info) \<Rightarrow>
                 if appointment_info \<noteq> [] then
                   (case notify i province appointment_info of
                      Raised \<Rightarrow>
                        ([Checked province, Notified province appointment_info],
                         [appointment_info])
                    | Returned sent \<Rightarrow>
                        ([Checked province, Notified province appointment_info],
                         [appointment_info]))
                 else ([Checked province], []));
          (evs', found') = check_all check notify (Suc i) rest
      in (evs @ [Paused 2] @ evs', found @ found'))"

text \<open>
  The browser variant starts the browser first when there is none; an exception there is
  caught by the outer handler and ends the cycle before the loop.
\<close>

definition run_single_check ::
  "checker \<Rightarrow> notifier \<Rightarrow> bool \<Rightarrow> bool \<Rightarrow> string list \<Rightarrow> cycle_event list \<times> pydict list"
where
  "run_single_check check notify has_browser initialize_browser_ok provinces =
     (if \<not> has_browser \<and> \<not> initialize_browser_ok then ([], [])
      else check_all check notify 0 provinces)"

text \<open>
  The HTTP variant updates \<^verbatim>\<open>consecutive_failures\<close> after the loop. \<open>log_handler\<close> is
  \<^verbatim>\<open>None\<close> when the logger has no handler, where \<^verbatim>\<open>logger.handlers[0]\<close> raises and the
  outer handler catches it, and otherwise the text of the one element that \<^verbatim>\<open>all\<close>
  examines.
\<close>

definition run_single_check_requests ::
  "checker \<Rightarrow> notifier \<Rightarrow> string option \<Rightarrow> string list \<Rightarrow> int
     \<Rightarrow> cycle_event list \<times> pydict list \<times> int"
where
  "run_single_check_requests check notify log_handler provinces consecutive_failures =
     (case check_all check notify 0 provinces of
        (evs, found_appointments) \<Rightarrow>
          (evs, found_appointments,
           if found_appointments \<noteq> [] then 0
           else (case log_handler of
                   None \<Rightarrow> consecutive_failures
                 | Some e \<Rightarrow>
                     if contains ''Failed to access initial page'' e
                     then consecutive_failures + 1 else 0)))"

text \<open>Notions for stating what a cycle does.\<close>

fun is_notification :: "cycle_event \<Rightarrow> bool" where
  "is_notification (Notified _ _) = True"
| "is_notification _ = False"

definition recorded :: "checker \<Rightarrow> nat \<times> string \<Rightarrow> pydict option" where
  "recorded check ip =
     (case check (fst ip) (snd ip) of
        Raised \<Rightarrow> None
      | Returned None \<Rightarrow> None
      | Returned (Some info) \<Rightarrow> if info \<noteq> [] then Some info else None)"

definition cycle_complete :: "checker \<Rightarrow> string list \<Rightarrow> cycle_event list \<Rightarrow> pydict list \<Rightarrow> bool" where
  "cycle_complete check provinces evs found =
     (filter (\<lambda>e. \<not> is_notification e) evs = concat (map (\<lambda>p. [Checked p, Paused 2]) provinces) \<and>
      found = List.map_filter (recorded check) (List.enumerate 0 provinces))"

text \<open>A check that raises for the second province and finds slots in the third.\<close>

definition second_raises :: checker where
  "second_raises i province =
     (if i = 1 then Raised
      else if i = 2 then Returned (Some [(''province'', PStr province)])
      else Returned None)"

definition notify_fails :: notifier where
  "notify_fails i province info = Returned False"

text \<open>
  The browser pipeline as the check of a cycle: the second province is stuck at the
  service selection, the others reach a page without appointments.
\<close>

definition scenario_checker :: checker where
  "scenario_checker i province =
     fst (check_province_appointments
            (if i = 1 then stuck_browser else no_slots_browser) profile ''t'' province)"

section \<open>Properties\<close>

subsection \<open>The retry loop\<close>

lemma retry_loop_server_errors:
  assumes "\<forall>i. k \<le> i \<and> i < m \<longrightarrow> server_error (net meth uri kw i)"
  shows "retry_loop net meth uri (int m) kw [k..<m] =
           (concat (map (\<lambda>n. attempt_events meth uri kw (Suc n)) [k..<m]), None)"
  using assms
proof (induction "m - k" arbitrary: k)
  case 0
  then show ?case by simp
next
  case (Suc d)
  then have km: "k < m" and d: "d = m - Suc k" by arith+
  from Suc.prems km have se: "server_error (net meth uri kw k)" by simp
  from Suc.prems have "\<forall>i. Suc k \<le> i \<and> i < m \<longrightarrow> server_error (net meth uri kw i)" by simp
  with Suc.hyps(1) [OF d] have IH: "retry_loop net meth uri (int m) kw [Suc k..<m] =
           (concat (map (\<lambda>n. attempt_events meth uri kw (Suc n)) [Suc k..<m]), None)" by simp
  from km have upt: "[k..<m] = k # [Suc k..<m]" by (simp add: upt_rec)
  from se obtain s b u where out: "net meth uri kw k = Responds s b u" and s: "500 \<le> s"
    by (auto simp: server_error_def split: outcome.splits)
  show ?case
    unfolding upt using out s IH
    by (auto simp: Let_def attempt_events_def)
qed

lemma backoff_schedule_upt:
  "backoff_schedule meth uri kw m =
     concat (map (\<lambda>n. attempt_events meth uri kw (Suc n)) [0..<m])"
proof -
  have "[1..<Suc m] = map Suc [0..<m]" by (simp add: map_Suc_upt)
  then show ?thesis by (simp add: backoff_schedule_def comp_def del: upt_Suc)
qed

lemma delays_append: "delays (xs @ ys) = delays xs @ delays ys"
  by (induction xs rule: delays.induct) simp_all

lemma requests_backoff_schedule:
  "length (filter is_request (backoff_schedule meth uri kw m)) = m"
  by (induction m) (simp_all add: backoff_schedule_def attempt_events_def)

lemma delays_backoff_schedule:
  "delays (backoff_schedule meth uri kw m) = map (\<lambda>n. min (2 ^ (n - 1)) 6) [2..<Suc m]"
  by (induction m) (auto simp: backoff_schedule_def attempt_events_def delays_append)

lemma capped_delays:
  "map (\<lambda>n. min (2 ^ (n - 1)) (6::int)) [2..<Suc m] = take (m - 1) (2 # 4 # replicate (m - 3) 6)"
proof (induction m)
  case 0
  then show ?case by simp
next
  case (Suc m)
  consider "m = 0" | "m = 1" | "m = 2" | "3 \<le> m" by arith
  then show ?case
  proof cases
    case 4
    then have "(2::int) ^ 3 \<le> 2 ^ m" by (intro power_increasing) simp_all
    then have m6: "min (2 ^ m) (6::int) = 6" by simp
    from 4 have r: "replicate (Suc m - 3) (6::int) = replicate (m - 3) 6 @ [6]"
      by (metis Suc_diff_le replicate_append_same replicate_Suc)
    from 4 have "take (Suc m - 1) (2 # 4 # replicate (Suc m - 3) (6::int)) = 2 # 4 # replicate (m - 3) 6 @ [6]"
      unfolding r by (simp add: take_Cons')
    moreover from 4 have "take (m - 1) (2 # 4 # replicate (m - 3) (6::int)) = 2 # 4 # replicate (m - 3) 6"
      by (simp add: take_Cons')
    ultimately show ?thesis using Suc 4 m6 by simp
  qed (simp_all add: numeral_2_eq_2)
qed

lemma retry_loop_Raises:
  "net meth uri kw attempt = Raises e \<Longrightarrow>
   retry_loop net meth uri max_retries kw (attempt # rest) =
     retry_or_give_up net meth uri max_retries kw attempt rest"
  by (cases e) (simp_all add: Let_def retry_or_give_up_def attempt_events_def split: prod.splits)

lemma retry_loop_Responds:
  "net meth uri kw attempt = Responds status body final_url \<Longrightarrow>
   retry_loop net meth uri max_retries kw (attempt # rest) =
     (if 500 \<le> status then retry_or_give_up net meth uri max_retries kw attempt rest
      else if 400 \<le> status then (attempt_events meth uri kw (Suc attempt), None)
      else case body of
             Inr content \<Rightarrow> (attempt_events meth uri kw (Suc attempt), Some (content, final_url, status))
           | Inl e \<Rightarrow> retry_or_give_up net meth uri max_retries kw attempt rest)"
proof (cases body)
  case (Inl e)
  assume "net meth uri kw attempt = Responds status body final_url"
  with Inl show ?thesis
    by (cases e) (simp_all add: Let_def retry_or_give_up_def attempt_events_def split: prod.splits)
next
  case (Inr content)
  assume "net meth uri kw attempt = Responds status body final_url"
  with Inr show ?thesis
    by (simp add: Let_def retry_or_give_up_def attempt_events_def split: prod.splits)
qed

lemma retry_loop_failed:
  assumes "failed (net meth uri kw attempt)"
  shows "retry_loop net meth uri max_retries kw (attempt # rest) =
           (if client_error (net meth uri kw attempt)
            then (attempt_events meth uri kw (Suc attempt), None)
            else retry_or_give_up net meth uri max_retries kw attempt rest)"
proof (cases "net meth uri kw attempt")
  case (Raises e)
  then show ?thesis by (simp add: retry_loop_Raises client_error_def del: retry_loop.simps)
next
  case (Responds status body final_url)
  with assms show ?thesis
    by (cases body) (auto simp: retry_loop_Responds client_error_def failed_def simp del: retry_loop.simps)
qed

lemma retry_loop_client_error:
  assumes "client_error (net meth uri kw attempt)"
  shows "retry_loop net meth uri max_retries kw (attempt # rest) =
           (attempt_events meth uri kw (Suc attempt), None)"
proof -
  from assms have "failed (net meth uri kw attempt)"
    by (auto simp: client_error_def failed_def split: outcome.splits)
  with retry_loop_failed [of net meth uri kw attempt max_retries rest] assms
  show ?thesis by simp
qed

lemma retry_loop_retried:
  assumes "failed (net meth uri kw attempt)" and "\<not> client_error (net meth uri kw attempt)"
    and "int attempt \<noteq> max_retries - 1"
  shows "retry_loop net meth uri max_retries kw (attempt # rest) =
           (attempt_events meth uri kw (Suc attempt) @ fst (retry_loop net meth uri max_retries kw rest),
            snd (retry_loop net meth uri max_retries kw rest))"
  using retry_loop_failed [of net meth uri kw attempt max_retries rest] assms
  by (simp add: retry_or_give_up_def)

lemma retry_loop_succeeded:
  assumes "succeeded (net meth uri kw attempt)"
  shows "\<exists>status content final_url. status < 400 \<and>
           net meth uri kw attempt = Responds status (Inr content) final_url \<and>
           retry_loop net meth uri max_retries kw (attempt # rest) =
             (attempt_events meth uri kw (Suc attempt), Some (content, final_url, status))"
proof (cases "net meth uri kw attempt")
  case (Raises e)
  with assms show ?thesis by (simp add: succeeded_def)
next
  case (Responds status body final_url)
  with assms show ?thesis
    by (cases body) (auto simp: retry_loop_Responds succeeded_def simp del: retry_loop.simps)
qed

lemma failed_or_succeeded: "failed out \<longleftrightarrow> \<not> succeeded out"
  by (auto simp: failed_def succeeded_def split: outcome.splits)

lemma retry_loop_status:
  "retry_loop net meth uri max_retries kw attempts = (evs, Some (content, final_url, status)) \<Longrightarrow>
     status < 400 \<and> (\<exists>i \<in> set attempts. net meth uri kw i = Responds status (Inr content) final_url)"
proof (induction attempts arbitrary: evs)
  case Nil
  then show ?case by simp
next
  case (Cons a attempts)
  show ?case
  proof (cases "succeeded (net meth uri kw a)")
    case True
    with retry_loop_succeeded [of net meth uri kw a max_retries attempts] Cons.prems
    show ?thesis by auto
  next
    case False
    then have "failed (net meth uri kw a)" by (simp add: failed_or_succeeded)
    with retry_loop_failed [of net meth uri kw a max_retries attempts] Cons.prems
    have "snd (retry_loop net meth uri max_retries kw attempts) = Some (content, final_url, status)"
      by (auto simp: retry_or_give_up_def split: if_splits)
    with Cons.IH [of "fst (retry_loop net meth uri max_retries kw attempts)"]
    show ?thesis by (metis list.set_intros(2) prod.collapse)
  qed
qed

lemma requests_attempt_events:
  "length (filter is_request (attempt_events meth uri kw n)) = 1"
  by (simp add: attempt_events_def)

lemma retry_loop_failed_prefix:
  assumes "\<forall>i<k. failed (net meth uri kw i) \<and> \<not> client_error (net meth uri kw i)"
    and "k < m"
  shows "retry_loop net meth uri (int m) kw [0..<m] =
           (backoff_schedule meth uri kw k @ fst (retry_loop net meth uri (int m) kw [k..<m]),
            snd (retry_loop net meth uri (int m) kw [k..<m]))"
  using assms
proof (induction k)
  case 0
  then show ?case by (simp add: backoff_schedule_def)
next
  case (Suc k)
  then have IH: "retry_loop net meth uri (int m) kw [0..<m] =
           (backoff_schedule meth uri kw k @ fst (retry_loop net meth uri (int m) kw [k..<m]),
            snd (retry_loop net meth uri (int m) kw [k..<m]))" by simp
  from Suc.prems have upt: "[k..<m] = k # [Suc k..<m]" by (simp add: upt_rec)
  from Suc.prems have f: "failed (net meth uri kw k)" "\<not> client_error (net meth uri kw k)"
    and nl: "int k \<noteq> int m - 1" by auto
  have b: "backoff_schedule meth uri kw (Suc k) =
             backoff_schedule meth uri kw k @ attempt_events meth uri kw (Suc k)"
    by (simp add: backoff_schedule_def)
  show ?case
    unfolding IH upt
    using retry_loop_retried [of net meth uri kw k "int m" "[Suc k..<m]"] f nl b by simp
qed

lemma retry_loop_starts:
  "\<exists>evs. fst (retry_loop net meth uri max_retries kw (attempt # rest)) =
           attempt_events meth uri kw (Suc attempt) @ evs"
proof (cases "succeeded (net meth uri kw attempt)")
  case True
  with retry_loop_succeeded [of net meth uri kw attempt max_retries rest] show ?thesis
    by auto
next
  case False
  then have "failed (net meth uri kw attempt)" by (simp add: failed_or_succeeded)
  with retry_loop_failed [of net meth uri kw attempt max_retries rest] show ?thesis
    by (auto simp: retry_or_give_up_def)
qed

text \<open>
  Claim C1. When every response has a status of 500 or more, a call with
  \<open>max_retries = m\<close> performs exactly \<open>m\<close> requests, sleeps \<open>min (2 ^ (n - 1)) 6\<close>
  seconds before each attempt \<open>n \<ge> 2\<close> and not at all before the first (so the pauses
  are 2, 4, 6, 6, ...), and returns \<^verbatim>\<open>None\<close>.
\<close>

theorem retry_server_errors_exhaust:
  assumes "0 \<le> m"
    and "\<forall>i < nat m. server_error (net meth uri kw i)"
  shows "case make_request_with_retry net meth uri m kw of
           (evs, result) \<Rightarrow>
             result = None \<and>
             evs = backoff_schedule meth uri kw (nat m) \<and>
             length (filter is_request evs) = nat m \<and>
             delays evs = map (\<lambda>n. min (2 ^ (n - 1)) 6) [2..<Suc (nat m)] \<and>
             delays evs = take (nat m - 1) (2 # 4 # replicate (nat m - 3) 6)"
proof -
  from assms(2) have "\<forall>i. 0 \<le> i \<and> i < nat m \<longrightarrow> server_error (net meth uri kw i)" by simp
  from retry_loop_server_errors [of 0 "nat m" net meth uri kw, OF this] assms(1)
  have "make_request_with_retry net meth uri m kw = (backoff_schedule meth uri kw (nat m), None)"
    by (simp add: make_request_with_retry_def backoff_schedule_upt)
  then show ?thesis
    by (simp only: prod.case requests_backoff_schedule delays_backoff_schedule capped_delays
        simp_thms)
qed

theorem retry_server_errors_exhaust_witness:
  "0 \<le> (5::int) \<and>
   make_request_with_retry always_503 ''GET'' ''u'' 5 None =
     ([Request ''GET'' ''u'' None, Sleep 2, Request ''GET'' ''u'' None, Sleep 4,
       Request ''GET'' ''u'' None, Sleep 6, Request ''GET'' ''u'' None, Sleep 6,
       Request ''GET'' ''u'' None], None)"
  using retry_server_errors_exhaust [of 5 always_503 "''GET''" "''u''" None]
  by (simp add: always_503_def server_error_def backoff_schedule_def attempt_events_def
      upt_rec split: prod.splits)

text \<open>
  Claim C4. A response with a status in \<open>[400, 500)\<close> ends the call at once: one
  request, no sleep, result \<^verbatim>\<open>None\<close>, whatever number of attempts was allowed.
\<close>

theorem client_error_single_attempt:
  assumes "1 \<le> max_retries" and "client_error (net meth uri kw 0)"
  shows "make_request_with_retry net meth uri max_retries kw = ([Request meth uri kw], None)"
proof -
  from assms(1) have "[0..<nat max_retries] = 0 # [1..<nat max_retries]"
    by (simp add: upt_rec)
  with retry_loop_client_error [of net meth uri kw 0 max_retries "[1..<nat max_retries]"] assms(2)
  show ?thesis by (simp add: make_request_with_retry_def attempt_events_def)
qed

theorem client_error_single_attempt_witness:
  "1 \<le> (3::int) \<and> client_error (always_404 ''GET'' ''u'' None 0) \<and>
   make_request_with_retry always_404 ''GET'' ''u'' 3 None = ([Request ''GET'' ''u'' None], None)"
  using client_error_single_attempt [of 3 always_404 "''GET''" "''u''" None]
  by (simp add: always_404_def client_error_def)

text \<open>
  Claim C5, as stated: only a connection failure, a timeout or a server error status is
  retried. It fails: an exception of any other kind is caught by the last handler, and the
  loop goes on to the next attempt.
\<close>

theorem unexpected_error_retried:
  "\<not> spec_transient (unexpected_then_ok ''GET'' ''u'' None 0) \<and>
   make_request_with_retry unexpected_then_ok ''GET'' ''u'' 3 None =
     ([Request ''GET'' ''u'' None, Sleep 2, Request ''GET'' ''u'' None],
      Some (''<html>'', ''u'', 200))"
  by (simp add: make_request_with_retry_def unexpected_then_ok_def spec_transient_def upt_rec)

text \<open>
  Claim C5, amended. Every failed attempt is retried while attempts remain, unless the
  failure is a client error status in \<open>[400, 500)\<close>: with attempts \<open>1\<close> to \<open>k\<close> failed
  and retried, a failure of attempt \<open>k + 1\<close> ends the call there with \<^verbatim>\<open>None\<close> when it is
  a client error or the last attempt allowed, and is followed by a further request otherwise.
\<close>

theorem failures_retried_unless_client_error:
  assumes "k < nat max_retries"
    and "\<forall>i<k. failed (net meth uri kw i) \<and> \<not> client_error (net meth uri kw i)"
    and "failed (net meth uri kw k)"
  shows "case make_request_with_retry net meth uri max_retries kw of
           (evs, result) \<Rightarrow>
             if client_error (net meth uri kw k) \<or> Suc k = nat max_retries
             then length (filter is_request evs) = Suc k \<and> result = None
             else Suc (Suc k) \<le> length (filter is_request evs)"
proof -
  let ?m = "nat max_retries"
  from assms(1) have m: "int ?m = max_retries" by simp
  from assms(1) have upt: "[k..<?m] = k # [Suc k..<?m]" by (simp add: upt_rec)
  let ?tail = "retry_loop net meth uri max_retries kw (k # [Suc k..<?m])"
  from retry_loop_failed_prefix [of k net meth uri kw ?m] assms(1,2)
  have "retry_loop net meth uri (int ?m) kw [0..<?m] =
          (backoff_schedule meth uri kw k @ fst (retry_loop net meth uri (int ?m) kw [k..<?m]),
           snd (retry_loop net meth uri (int ?m) kw [k..<?m]))"
    by blast
  then have whole: "make_request_with_retry net meth uri max_retries kw =
                 (backoff_schedule meth uri kw k @ fst ?tail, snd ?tail)"
    unfolding m upt make_request_with_retry_def .
  from retry_loop_failed [of net meth uri kw k max_retries "[Suc k..<?m]"] assms(3)
  have tail: "?tail = (if client_error (net meth uri kw k)
                       then (attempt_events meth uri kw (Suc k), None)
                       else retry_or_give_up net meth uri max_retries kw k [Suc k..<?m])"
    by simp
  show ?thesis
  proof (cases "client_error (net meth uri kw k) \<or> Suc k = ?m")
    case True
    then have "?tail = (attempt_events meth uri kw (Suc k), None)"
      unfolding tail using m by (auto simp: retry_or_give_up_def)
    with True show ?thesis
      unfolding whole by (simp add: requests_backoff_schedule requests_attempt_events)
  next
    case False
    with assms(1) have lt: "Suc k < ?m" and ne: "int k \<noteq> max_retries - 1" by auto
    from lt have upt2: "[Suc k..<?m] = Suc k # [Suc (Suc k)..<?m]" by (simp add: upt_rec)
    from retry_loop_starts [of net meth uri max_retries kw "Suc k" "[Suc (Suc k)..<?m]"]
    obtain evs' where
      "fst (retry_loop net meth uri max_retries kw [Suc k..<?m]) =
         attempt_events meth uri kw (Suc (Suc k)) @ evs'"
      unfolding upt2 by blast
    with False ne have "fst ?tail =
        attempt_events meth uri kw (Suc k) @ attempt_events meth uri kw (Suc (Suc k)) @ evs'"
      unfolding tail by (simp add: retry_or_give_up_def)
    with False show ?thesis
      unfolding whole by (simp add: requests_backoff_schedule requests_attempt_events)
  qed
qed

theorem failures_retried_unless_client_error_witness:
  "(0::nat) < nat 3 \<and> failed (unexpected_then_ok ''GET'' ''u'' None 0) \<and>
   \<not> client_error (unexpected_then_ok ''GET'' ''u'' None 0) \<and>
   2 \<le> length (filter is_request (fst (make_request_with_retry unexpected_then_ok ''GET'' ''u'' 3 None)))"
  using failures_retried_unless_client_error [of 0 3 unexpected_then_ok "''GET''" "''u''" None]
  by (simp add: unexpected_then_ok_def failed_def client_error_def split: prod.splits)

text \<open>
  Claim C10. A result other than \<^verbatim>\<open>None\<close> is the content, final URL and status of one
  of the responses received, and its status is below 400. Every exception raised by the
  request or by reading the body is caught by one of the three handlers, so the function
  has a result for every network.
\<close>

theorem successful_status_below_400:
  assumes "make_request_with_retry net meth uri max_retries kw =
             (evs, Some (content, final_url, status))"
  shows "status < 400 \<and>
         (\<exists>i < nat max_retries. net meth uri kw i = Responds status (Inr content) final_url)"
  using retry_loop_status [of net meth uri max_retries kw "[0..<nat max_retries]" evs content
      final_url status] assms
  by (auto simp: make_request_with_retry_def)

theorem successful_status_below_400_witness:
  "make_request_with_retry flaky_then_ok ''GET'' ''u'' 3 None =
     ([Request ''GET'' ''u'' None, Sleep 2, Request ''GET'' ''u'' None, Sleep 4,
       Request ''GET'' ''u'' None], Some (''<html>'', ''u'', 200)) \<and> (200::int) < 400"
proof -
  have run: "make_request_with_retry flaky_then_ok ''GET'' ''u'' 3 None =
     ([Request ''GET'' ''u'' None, Sleep 2, Request ''GET'' ''u'' None, Sleep 4,
       Request ''GET'' ''u'' None], Some (''<html>'', ''u'', 200))"
    by (simp add: make_request_with_retry_def flaky_then_ok_def upt_rec)
  from successful_status_below_400 [OF run] run show ?thesis by simp
qed

subsection \<open>The form of the first page\<close>

lemma map_of_form_entry:
  "map_of (form_entry province t fd) n =
     (if sets_field province t n then Some (entry_value province t) else map_of fd n)"
  by (auto simp: form_entry_def sets_field_def entry_value_def is_province_select_def
      matching_option_def update_conv' split: option.splits)

lemma map_of_fill_form_data_unset:
  "\<forall>t \<in> set tags. \<not> sets_field province t n \<Longrightarrow>
     map_of (fill_form_data province tags fd) n = map_of fd n"
  by (induction tags arbitrary: fd) (simp_all add: map_of_form_entry)

lemma map_of_fill_form_data_last:
  "sets_field province t n \<Longrightarrow> \<forall>u \<in> set ys. \<not> sets_field province u n \<Longrightarrow>
     map_of (fill_form_data province (xs @ t # ys) fd) n = Some (entry_value province t)"
  by (induction xs arbitrary: fd) (simp_all add: map_of_form_entry map_of_fill_form_data_unset)

lemma dom_fill_form_data:
  "dom (map_of (fill_form_data province tags fd)) =
     dom (map_of fd) \<union> {n. \<exists>t \<in> set tags. sets_field province t n}"
proof (induction tags arbitrary: fd)
  case Nil
  then show ?case by simp
next
  case (Cons t tags)
  have "dom (map_of (form_entry province t fd)) = dom (map_of fd) \<union> {n. sets_field province t n}"
    by (auto simp: map_of_form_entry dom_def)
  with Cons show ?case by auto
qed

lemma form_entry_submit: "is_submit_input t \<Longrightarrow> form_entry province t fd = fd"
  by (auto simp: form_entry_def is_submit_input_def split: option.splits)

lemma fill_form_data_filter_submit:
  "fill_form_data province (filter (\<lambda>t. \<not> is_submit_input t) tags) fd =
     fill_form_data province tags fd"
  by (induction tags arbitrary: fd) (simp_all add: form_entry_submit)

lemma retry_loop_events:
  "\<forall>e \<in> set (fst (retry_loop net meth uri max_retries kw attempts)).
      (\<exists>d. e = Sleep d) \<or> e = Request meth uri kw"
proof (induction attempts)
  case Nil
  then show ?case by simp
next
  case (Cons a attempts)
  show ?case
  proof (cases "succeeded (net meth uri kw a)")
    case True
    with retry_loop_succeeded [of net meth uri kw a max_retries attempts] show ?thesis
      by (auto simp: attempt_events_def)
  next
    case False
    then have "failed (net meth uri kw a)" by (simp add: failed_or_succeeded)
    with retry_loop_failed [of net meth uri kw a max_retries attempts] Cons.IH show ?thesis
      by (auto simp: retry_or_give_up_def attempt_events_def)
  qed
qed

lemma get_no_post:
  "\<forall>e \<in> set (fst (make_request_with_retry net ''GET'' uri max_retries kw)). \<not> is_post e"
  using retry_loop_events [of net "''GET''" uri max_retries kw "[0..<nat max_retries]"]
  by (auto simp: make_request_with_retry_def)

lemma request_first:
  "1 \<le> max_retries \<Longrightarrow>
   \<exists>evs. fst (make_request_with_retry net meth uri max_retries kw) = Request meth uri kw # evs"
proof -
  assume "1 \<le> max_retries"
  then have "[0..<nat max_retries] = 0 # [1..<nat max_retries]" by (simp add: upt_rec)
  with retry_loop_starts [of net meth uri max_retries kw 0 "[1..<nat max_retries]"]
  show ?thesis by (simp add: make_request_with_retry_def attempt_events_def)
qed

text \<open>
  On a form where no field other than a select is named \<^verbatim>\<open>provincia\<close>, a province that
  is the stripped text of no option makes the check return \<^verbatim>\<open>None\<close> with the requests
  of the initial \<^verbatim>\<open>GET\<close> only: the form is not submitted.
\<close>

lemma unlisted_province_not_submitted:
  assumes "make_request_with_retry net ''GET'' base_url 3 None = (evs, r)"
    and "\<And>content final_url status form.
           r = Some (content, final_url, status) \<Longrightarrow> first_form content = Some form \<Longrightarrow>
           \<not> province_listed province form \<and> \<not> other_provincia_field form"
  shows "check_province_appointments_requests net now province = (evs, None) \<and>
         list_all (\<lambda>e. \<not> is_post e) evs"
proof -
  from get_no_post [of net base_url 3 None] assms(1)
  have no_post: "list_all (\<lambda>e. \<not> is_post e) evs" by (simp add: list_all_iff)
  have "check_province_appointments_requests net now province = (evs, None)"
  proof (cases r)
    case None
    with assms(1) show ?thesis by (simp add: check_province_appointments_requests_def)
  next
    case (Some resp)
    obtain content final_url status where resp: "resp = (content, final_url, status)"
      by (cases resp) auto
    show ?thesis
    proof (cases "first_form content")
      case None
      with assms(1) Some resp show ?thesis
        by (simp add: check_province_appointments_requests_def)
    next
      case (Some form)
      with assms(2) \<open>r = Some resp\<close> resp
      have "\<not> province_listed province form" and "\<not> other_provincia_field form" by blast+
      then have "\<forall>t \<in> set (field_tags form). \<not> sets_field province t ''provincia''"
        by (auto simp: province_listed_def other_provincia_field_def sets_field_def
            is_province_select_def list_ex_iff)
      then have "map_of (fill_form_data province (field_tags form) []) ''provincia'' = None"
        by (simp add: map_of_fill_form_data_unset)
      with assms(1) Some \<open>r = Some resp\<close> resp show ?thesis
        by (simp add: check_province_appointments_requests_def Let_def)
    qed
  qed
  with no_post show ?thesis by simp
qed

text \<open>
  Claim C6. A province that is the stripped text of no option of the province select
  field makes the check return \<^verbatim>\<open>None\<close> before the form is submitted. The source
  tests only whether the key \<^verbatim>\<open>provincia\<close> is in the form data, and its loop copies
  every other named field into the form data: on a form with a hidden input named
  \<^verbatim>\<open>provincia\<close> the key is there although no option matches, and the form is submitted
  with the value of that input, against the message of the source for this case,
  \<^verbatim>\<open>Province ... not found in form options\<close>.
\<close>

theorem unlisted_province_submitted:
  "\<not> province_listed ''Sevilla'' odd_form \<and>
   check_province_appointments_requests (portal odd_form ''No hay citas disponibles'') ''t''
       ''Sevilla'' =
     ([Request ''GET'' base_url None,
       Request ''POST'' (origin @ ''/icpplus/citar?p=4&locale=es'') (Some [(''provincia'', ''0'')])],
      None)"
  by code_simp

lemma lower_hidden: "lower ''hidden'' = ''hidden''" "lower ''submit'' \<noteq> ''hidden''"
  by code_simp+

text \<open>
  Claim C9, as stated: the field mapping holds every hidden input with its prefilled
  value and no submit-type input. It fails on a form with a hidden input that has no
  name, which is skipped, with two hidden inputs of the same name, where the later value
  replaces the earlier one, and with a submit input whose type is written \<^verbatim>\<open>SUBMIT\<close>,
  which is kept because the source compares the attribute with \<^verbatim>\<open>submit\<close> as it is.
\<close>

theorem hidden_inputs_left_out:
  "list_all is_hidden_input (take 3 (field_tags repeated_form)) \<and>
   map value_attr (take 3 (field_tags repeated_form)) = [Some ''a'', Some ''b'', Some ''c''] \<and>
   map type_attr (drop 3 (field_tags repeated_form)) = [Some ''SUBMIT''] \<and>
   fill_form_data ''Sevilla'' (field_tags repeated_form) [] =
     [(''token'', ''c''), (''go'', ''Enviar'')]"
  by code_simp

text \<open>
  Claim C9, amended. The action URL of the first form is prefixed with the origin when it
  starts with a slash and is left as it is otherwise, and the province is submitted to it.
  Every hidden input with a non-empty name has its name in the field mapping, with its
  prefilled value unless a later field of the form has the same name. No entry of the
  mapping comes from an input whose type attribute is the string \<^verbatim>\<open>submit\<close>, in these
  lower-case letters: the mapping is the one of the form without those inputs, and a
  name that only such inputs carry is not in it.
\<close>

theorem form_extraction:
  "(\<forall>a. action_attr form = Some a \<and> prefix ''/'' a \<longrightarrow> form_action_url form = origin @ a) \<and>
   (\<forall>a. action_attr form = Some a \<and> \<not> prefix ''/'' a \<longrightarrow> form_action_url form = a) \<and>
   (\<forall>evs content final_url status.
      make_request_with_retry net ''GET'' base_url 3 None = (evs, Some (content, final_url, status)) \<and>
      first_form content = Some form \<and>
      map_of (fill_form_data province (field_tags form) []) ''provincia'' \<noteq> None \<longrightarrow>
      (\<exists>evs'. fst (check_province_appointments_requests net now province) =
         evs @ Request ''POST'' (if form_action_url form \<noteq> [] then form_action_url form else base_url)
                 (Some (fill_form_data province (field_tags form) [])) # evs')) \<and>
   (\<forall>t n. t \<in> set (field_tags form) \<and> is_hidden_input t \<and> name_attr t = Some n \<and> n \<noteq> [] \<longrightarrow>
      n \<in> dom (map_of (fill_form_data province (field_tags form) []))) \<and>
   (\<forall>xs t ys n. field_tags form = xs @ t # ys \<and> is_hidden_input t \<and> name_attr t = Some n \<and>
      n \<noteq> [] \<and> (\<forall>u \<in> set ys. name_attr u \<noteq> Some n) \<longrightarrow>
      map_of (fill_form_data province (field_tags form) []) n = Some (get_or_empty (value_attr t))) \<and>
   fill_form_data province (field_tags form) [] =
     fill_form_data province (filter (\<lambda>t. \<not> is_submit_input t) (field_tags form)) [] \<and>
   (\<forall>n. (\<forall>t \<in> set (field_tags form). name_attr t = Some n \<longrightarrow> is_submit_input t) \<longrightarrow>
      map_of (fill_form_data province (field_tags form) []) n = None)"
proof -
  let ?fd = "fill_form_data province (field_tags form) []"
  have hidden: "sets_field province t n \<and> entry_value province t = get_or_empty (value_attr t)"
    if "is_hidden_input t" "name_attr t = Some n" "n \<noteq> []" for t n
    using that lower_hidden(2)
    by (auto simp: is_hidden_input_def sets_field_def entry_value_def is_province_select_def
        split: option.splits)
  have a1: "\<forall>a. action_attr form = Some a \<and> prefix ''/'' a \<longrightarrow> form_action_url form = origin @ a"
    by (simp add: form_action_url_def get_or_empty_def)
  have a2: "\<forall>a. action_attr form = Some a \<and> \<not> prefix ''/'' a \<longrightarrow> form_action_url form = a"
    by (simp add: form_action_url_def get_or_empty_def)
  have a3: "\<exists>evs'. fst (check_province_appointments_requests net now province) =
         evs @ Request ''POST'' (if form_action_url form \<noteq> [] then form_action_url form else base_url)
                 (Some ?fd) # evs'"
    if get: "make_request_with_retry net ''GET'' base_url 3 None = (evs, Some (content, final_url, status))"
      and form: "first_form content = Some form" and prov: "map_of ?fd ''provincia'' \<noteq> None"
    for evs content final_url status
  proof -
    let ?target = "if form_action_url form \<noteq> [] then form_action_url form else base_url"
    from request_first [of 3 net "''POST''" ?target "Some ?fd"]
    obtain evs' where
      "fst (make_request_with_retry net ''POST'' ?target 3 (Some ?fd)) =
         Request ''POST'' ?target (Some ?fd) # evs'"
      by auto
    with get form prov show ?thesis
      by (auto simp: check_province_appointments_requests_def Let_def split: prod.splits option.splits)
  qed
  have a4: "n \<in> dom (map_of ?fd)"
    if "t \<in> set (field_tags form)" "is_hidden_input t" "name_attr t = Some n" "n \<noteq> []" for t n
    using that hidden [of t n] by (auto simp: dom_fill_form_data)
  have a5: "map_of ?fd n = Some (get_or_empty (value_attr t))"
    if "field_tags form = xs @ t # ys" "is_hidden_input t" "name_attr t = Some n" "n \<noteq> []"
      "\<forall>u \<in> set ys. name_attr u \<noteq> Some n" for xs t ys n
  proof -
    from that(5) have "\<forall>u \<in> set ys. \<not> sets_field province u n" by (simp add: sets_field_def)
    with map_of_fill_form_data_last [of province t n ys xs "[]"] hidden [of t n] that(1-4)
    show ?thesis by simp
  qed
  have a6: "?fd = fill_form_data province (filter (\<lambda>t. \<not> is_submit_input t) (field_tags form)) []"
    by (simp add: fill_form_data_filter_submit)
  have a7: "map_of ?fd n = None"
    if "\<forall>t \<in> set (field_tags form). name_attr t = Some n \<longrightarrow> is_submit_input t" for n
  proof -
    from that have "\<forall>t \<in> set (field_tags form). \<not> sets_field province t n"
      by (auto simp: sets_field_def is_submit_input_def is_province_select_def)
    then show ?thesis by (simp add: map_of_fill_form_data_unset)
  qed
  show ?thesis
  proof (intro conjI)
    show "fill_form_data province (field_tags form) [] =
            fill_form_data province (filter (\<lambda>t. \<not> is_submit_input t) (field_tags form)) []"
      by (rule a6)
  qed (use a1 a2 a3 a4 a5 a7 in blast)+
qed

theorem form_extraction_witness:
  "form_action_url portal_form = origin @ ''/icpplus/citar?p=4&locale=es'' \<and>
   map_of (fill_form_data ''Albacete'' (field_tags portal_form) []) ''token'' = Some ''abc'' \<and>
   map_of (fill_form_data ''Albacete'' (field_tags portal_form) []) ''btnAceptar'' = None"
proof -
  let ?t = "input_tag ''hidden'' (Some ''token'') ''abc''"
  let ?xs = "[select_tag ''provincia'' [('' Albacete '', ''2''), (''Madrid'', ''28'')]]"
  let ?ys = "[input_tag ''submit'' (Some ''btnAceptar'') ''Aceptar'']"
  note fe = form_extraction [where form = portal_form and province = "''Albacete''"
      and net = "portal portal_form []" and now = "[]"]
  note action = fe [THEN conjunct1, rule_format, of "''/icpplus/citar?p=4&locale=es''"]
  note hidden = fe [THEN conjunct2, THEN conjunct2, THEN conjunct2, THEN conjunct2,
      THEN conjunct1, rule_format, of ?xs ?t ?ys "''token''"]
  note submit = fe [THEN conjunct2, THEN conjunct2, THEN conjunct2, THEN conjunct2,
      THEN conjunct2, THEN conjunct2, rule_format, of "''btnAceptar''"]
  have "form_action_url portal_form = origin @ ''/icpplus/citar?p=4&locale=es''"
    by (rule action) (simp_all add: portal_form_def)
  moreover have "map_of (fill_form_data ''Albacete'' (field_tags portal_form) []) ''token'' =
                   Some (get_or_empty (value_attr ?t))"
    by (rule hidden) (auto simp: portal_form_def input_tag_def is_hidden_input_def lower_hidden)
  moreover have "map_of (fill_form_data ''Albacete'' (field_tags portal_form) []) ''btnAceptar'' = None"
    by (rule submit) (auto simp: portal_form_def input_tag_def select_tag_def is_submit_input_def)
  ultimately show ?thesis by (simp add: input_tag_def get_or_empty_def)
qed

subsection \<open>The browser pipeline\<close>

lemma call_simps [simp]:
  "fst (call b a tr) = completes b (length tr) a"
  "snd (call b a tr) = tr @ [a]"
  by (simp_all add: call_def)

lemma extract_appointment_details_keys:
  "map fst (fst (extract_appointment_details b now tr)) = info_keys"
  by (simp add: extract_appointment_details_def Let_def info_keys_def update_keys
      split: prod.splits option.splits)


lemma find_calendar_cases:
  "fst (find_calendar b now sels tr) = (False, None) \<or>
   (\<exists>t. find_calendar b now sels tr = ((True, Some (fst (extract_appointment_details b now t))),
                                         snd (extract_appointment_details b now t)))"
proof (induction sels arbitrary: tr)
  case Nil
  then show ?case by simp
next
  case (Cons sel sels)
  show ?case
  proof (cases "completes b (length tr) (WaitForSelector sel)")
    case True
    then have "find_calendar b now (sel # sels) tr =
        ((True, Some (fst (extract_appointment_details b now (tr @ [WaitForSelector sel])))),
         snd (extract_appointment_details b now (tr @ [WaitForSelector sel])))"
      by (simp add: call_def split: prod.splits)
    then show ?thesis by blast
  next
    case False
    with Cons [of "tr @ [WaitForSelector sel]"] show ?thesis by (simp add: call_def)
  qed
qed


lemma check_appointment_availability_cases:
  "fst (check_appointment_availability b now tr) = (False, None) \<or>
   (\<exists>t. check_appointment_availability b now tr =
           ((True, Some (fst (extract_appointment_details b now t))),
            snd (extract_appointment_details b now t)))"
  using find_calendar_cases [of b now calendar_selectors "tr @ [WaitForLoadState, Content]"]
  by (simp add: check_appointment_availability_def call_def split: bool.splits)


lemma read_service_page_keys:
  "read_service_page now province response_url page = Some info \<Longrightarrow>
     take 5 (map fst info) = [''province'', ''timestamp'', ''page_url'', ''found_via'', ''status'']"
  by (auto simp: read_service_page_def Let_def update_keys split: if_splits)



lemma check_province_appointments_requests_keys:
  "check_province_appointments_requests net now province = (evs, Some info) \<Longrightarrow>
     take 5 (map fst info) = [''province'', ''timestamp'', ''page_url'', ''found_via'', ''status'']"
  by (auto simp: check_province_appointments_requests_def Let_def
      split: prod.splits option.splits if_splits dest: read_service_page_keys)


lemma calls_append:
  "calls b (xs @ ys) tr =
     (case calls b xs tr of (True, t) \<Rightarrow> calls b ys t | (False, t) \<Rightarrow> (False, t))"
  by (induction xs arbitrary: tr) (simp_all add: call_def split: bool.splits)

lemma calls_all:
  "\<forall>i<length as. completes b (length tr + i) (as ! i) \<Longrightarrow> calls b as tr = (True, tr @ as)"
proof (induction as arbitrary: tr)
  case Nil
  then show ?case by simp
next
  case (Cons a as)
  from Cons.prems have a: "completes b (length tr) a" by (auto dest: spec [of _ 0])
  have "\<forall>i<length as. completes b (length (tr @ [a]) + i) (as ! i)"
  proof (intro allI impI)
    fix i assume "i < length as"
    with Cons.prems have "completes b (length tr + Suc i) ((a # as) ! Suc i)" by auto
    then show "completes b (length (tr @ [a]) + i) (as ! i)" by simp
  qed
  from Cons.IH [OF this] a show ?case by (simp add: call_def)
qed

lemma calls_stop:
  assumes "j < length as"
    and "\<forall>i<j. completes b (length tr + i) (as ! i)"
    and "\<not> completes b (length tr + j) (as ! j)"
  shows "calls b as tr = (False, tr @ take (Suc j) as)"
proof -
  have as: "as = take j as @ (as ! j) # drop (Suc j) as"
    using assms(1) by (simp add: id_take_nth_drop)
  have "\<forall>i<length (take j as). completes b (length tr + i) (take j as ! i)"
    using assms(1,2) by simp
  then have 1: "calls b (take j as) tr = (True, tr @ take j as)" by (rule calls_all)
  have 2: "calls b ((as ! j) # drop (Suc j) as) (tr @ take j as) =
             (False, (tr @ take j as) @ [as ! j])"
    using assms(1,3) by (simp add: call_def min_def)
  have "calls b as tr = calls b (take j as @ (as ! j) # drop (Suc j) as) tr"
    using as by simp
  also have "\<dots> = (False, (tr @ take j as) @ [as ! j])"
    unfolding calls_append 1 using 2 by simp
  also have "(tr @ take j as) @ [as ! j] = tr @ take (Suc j) as"
    using assms(1) by (simp add: take_Suc_conv_app_nth)
  finally show ?thesis .
qed







lemma bool_prod_case:
  "(case p of (True, t) \<Rightarrow> f t | (False, t) \<Rightarrow> g t) = (if fst p then f (snd p) else g (snd p))"
  by (cases p) (simp split: bool.splits)

lemma check_steps_navigation:
  "check_steps b user_data now province tr =
     (case calls b (navigation_calls province user_data) tr of
        (False, t) \<Rightarrow> (None, t)
      | (True, t4) \<Rightarrow>
          (case check_appointment_availability b now t4 of
             ((True, Some appointment_info), t5) \<Rightarrow>
               if appointment_info \<noteq> [] then
                 (Some (AList.update ''booking_attempted''
                          (PBool (fst (auto_select_appointment b user_data t5)))
                          (AList.update ''province'' (PStr province) appointment_info)),
                  snd (auto_select_appointment b user_data t5))
               else (None, t5)
           | (_, t5) \<Rightarrow> (None, t5)))"
proof -
  have nav: "navigation_calls province user_data =
      [Goto base_url] @
      [WaitForSelector province_select, SelectOption province_select province,
       Click accept_button, WaitForUrl ''**/citar?p=4&locale=es''] @
      [WaitForSelector radio_input, CheckRadio police_radio, Click accept_button,
       WaitForSelector radio_input, CheckRadio asylum_radio, Click accept_button,
       WaitForUrl ''**/acInfo''] @
      [Click enter_button, WaitForUrl ''**/acEntrada''] @
      [WaitForSelector document_type_select,
       SelectOption document_type_select ''Pasaporte'',
       Fill passport_field (passport_number user_data),
       Fill name_field (full_name user_data),
       Fill birth_year_field (birth_year user_data),
       SelectOption nationality_select (nationality user_data),
       Click accept_button, WaitForLoadState]"
    by (simp add: navigation_calls_def)
  let ?sp = "[WaitForSelector province_select, SelectOption province_select province,
       Click accept_button, WaitForUrl ''**/citar?p=4&locale=es'']"
  let ?ss = "[WaitForSelector radio_input, CheckRadio police_radio, Click accept_button,
       WaitForSelector radio_input, CheckRadio asylum_radio, Click accept_button,
       WaitForUrl ''**/acInfo'']"
  let ?pe = "[Click enter_button, WaitForUrl ''**/acEntrada'']"
  let ?fu = "[WaitForSelector document_type_select,
       SelectOption document_type_select ''Pasaporte'',
       Fill passport_field (passport_number user_data),
       Fill name_field (full_name user_data),
       Fill birth_year_field (birth_year user_data),
       SelectOption nationality_select (nationality user_data),
       Click accept_button, WaitForLoadState]"
  obtain r0 t0 where 0: "call b (Goto base_url) tr = (r0, t0)" by fastforce
  obtain r1 t1 where 1: "calls b ?sp t0 = (r1, t1)" by fastforce
  obtain r2 t2 where 2: "calls b ?ss t1 = (r2, t2)" by fastforce
  obtain r3 t3 where 3: "calls b ?pe t2 = (r3, t3)" by fastforce
  obtain r4 t4 where 4: "calls b ?fu t3 = (r4, t4)" by fastforce
  have single: "calls b [Goto base_url] tr = call b (Goto base_url) tr"
    by (simp split: prod.splits bool.splits)
  show ?thesis
    unfolding nav calls_append single check_steps_def select_province_def
      select_service_type_def proceed_to_entry_form_def fill_user_data_def
    by (cases r0; cases r1; cases r2; cases r3; cases r4)
      (simp_all add: 0 1 2 3 4 Let_def del: calls.simps split: prod.splits option.splits bool.splits)
qed


lemma check_province_appointments_unfold:
  "check_province_appointments b user_data now province =
     (if completes b 0 NewPage
      then (if completes b (length (snd (check_steps b user_data now province [NewPage]))) ClosePage
            then Returned (fst (check_steps b user_data now province [NewPage])) else Raised,
            snd (check_steps b user_data now province [NewPage]) @ [ClosePage])
      else (Returned None, [NewPage]))"
  by (simp add: check_province_appointments_def call_def split: prod.splits)

lemma check_province_appointments_aborts:
  assumes "completes b 0 NewPage"
    and "j < length (navigation_calls province user_data)"
    and "\<forall>i<j. completes b (Suc i) (navigation_calls province user_data ! i)"
    and "\<not> completes b (Suc j) (navigation_calls province user_data ! j)"
  shows "check_province_appointments b user_data now province =
           (if completes b (Suc (Suc j)) ClosePage then Returned None else Raised,
            NewPage # take (Suc j) (navigation_calls province user_data) @ [ClosePage])"
proof -
  from calls_stop [of j "navigation_calls province user_data" b "[NewPage]"] assms(2-4)
  have "calls b (navigation_calls province user_data) [NewPage] =
          (False, [NewPage] @ take (Suc j) (navigation_calls province user_data))"
    by simp
  then have "check_steps b user_data now province [NewPage] =
          (None, [NewPage] @ take (Suc j) (navigation_calls province user_data))"
    by (simp add: check_steps_navigation)
  moreover from assms(2)
  have "length (take (Suc j) (navigation_calls province user_data)) = Suc j" by simp
  ultimately show ?thesis using assms(1)
    by (simp add: check_province_appointments_unfold)
qed

lemma check_steps_keys:
  "check_steps b user_data now province tr = (Some info, t) \<Longrightarrow>
     map fst info = info_keys @ [''booking_attempted'']"
proof -
  assume a: "check_steps b user_data now province tr = (Some info, t)"
  then obtain t4 d t5 where
    c: "check_appointment_availability b now t4 = ((True, Some d), t5)"
    and i: "info = AList.update ''booking_attempted''
                     (PBool (fst (auto_select_appointment b user_data t5)))
                     (AList.update ''province'' (PStr province) d)"
    by (auto simp: check_steps_navigation split: prod.splits bool.splits option.splits if_splits)
  from check_appointment_availability_cases [of b now t4] c
  obtain t' where "d = fst (extract_appointment_details b now t')" by auto
  then have "map fst d = info_keys" by (simp add: extract_appointment_details_keys)
  with i show ?thesis by (simp add: update_keys info_keys_def)
qed






text \<open>
  The check of a province in the browser variant, call by call. When the call \<open>j\<close> of
  the four steps raises after the calls before it returned, no later call of the steps
  is made, the page is closed, and the result is \<^verbatim>\<open>None\<close> when the closing returns.
  Whatever happens, a record that is returned has all its keys.
\<close>

lemma check_province_appointments_cases:
  "fst (check_province_appointments b user_data now province) = Raised \<or>
   fst (check_province_appointments b user_data now province) = Returned None \<or>
   (\<exists>info. fst (check_province_appointments b user_data now province) = Returned (Some info) \<and>
           map fst info = info_keys @ [''booking_attempted''])"
proof (cases "fst (check_steps b user_data now province [NewPage])")
  case None
  then show ?thesis by (simp add: check_province_appointments_unfold)
next
  case (Some info)
  then have "check_steps b user_data now province [NewPage] =
               (Some info, snd (check_steps b user_data now province [NewPage]))"
    by (metis prod.collapse)
  from check_steps_keys [OF this] Some show ?thesis
    by (simp add: check_province_appointments_unfold)
qed

lemma check_province_appointments_raises:
  "fst (check_province_appointments b user_data now province) = Raised \<longleftrightarrow>
     completes b 0 NewPage \<and>
     \<not> completes b (length (snd (check_steps b user_data now province [NewPage]))) ClosePage"
  by (simp add: check_province_appointments_unfold)

lemma check_province_appointments_requests_aborts:
  "make_request_with_retry net ''GET'' base_url 3 None = (evs, None) \<Longrightarrow>
     check_province_appointments_requests net now province = (evs, None)"
  "make_request_with_retry net ''GET'' base_url 3 None = (evs, Some (content, final_url, status)) \<Longrightarrow>
   first_form content = None \<Longrightarrow>
     check_province_appointments_requests net now province = (evs, None)"
  "make_request_with_retry net ''GET'' base_url 3 None = (evs, Some (content, final_url, status)) \<Longrightarrow>
   first_form content = Some form \<Longrightarrow>
   map_of (fill_form_data province (field_tags form) []) ''provincia'' = None \<Longrightarrow>
     check_province_appointments_requests net now province = (evs, None)"
  "make_request_with_retry net ''GET'' base_url 3 None = (evs, Some (content, final_url, status)) \<Longrightarrow>
   first_form content = Some form \<Longrightarrow>
   map_of (fill_form_data province (field_tags form) []) ''provincia'' \<noteq> None \<Longrightarrow>
   make_request_with_retry net ''POST''
     (if form_action_url form \<noteq> [] then form_action_url form else base_url) 3
     (Some (fill_form_data province (field_tags form) [])) = (evs', r) \<Longrightarrow>
   r = None \<or> (\<exists>c u s. r = Some (c, u, s) \<and> \<not> contains ''citar?p=4&locale=es'' u) \<Longrightarrow>
     check_province_appointments_requests net now province = (evs @ evs', None)"
  by (auto simp: check_province_appointments_requests_def Let_def)

text \<open>
  Claim C3. A check of a province returns \<^verbatim>\<open>None\<close> or one record with all its keys, and
  \<^verbatim>\<open>None\<close> at once when a step fails. The HTTP variant does so. The browser variant does
  so as long as closing the page returns; \<^verbatim>\<open>page.close()\<close> is awaited in the
  \<^verbatim>\<open>finally\<close> block outside every handler, so when it raises the check neither returns
  \<^verbatim>\<open>None\<close> nor a record: the exception reaches the caller. Here the service selection
  fails at the wait for the information page and the closing raises; with the closing
  returning, the same check returns \<^verbatim>\<open>None\<close>.
\<close>

theorem close_failure_escapes:
  "fst (check_province_appointments close_fails_browser profile ''t'' ''Madrid'') = Raised \<and>
   snd (check_province_appointments close_fails_browser profile ''t'' ''Madrid'') =
     NewPage # take 12 (navigation_calls ''Madrid'' profile) @ [ClosePage] \<and>
   check_province_appointments stuck_browser profile ''t'' ''Madrid'' =
     (Returned None, NewPage # take 12 (navigation_calls ''Madrid'' profile) @ [ClosePage])"
  by code_simp




subsection \<open>The check cycle\<close>

lemma check_all_complete:
  "filter (\<lambda>e. \<not> is_notification e) (fst (check_all check notify i provinces)) =
     concat (map (\<lambda>p. [Checked p, Paused 2]) provinces) \<and>
   snd (check_all check notify i provinces) =
     List.map_filter (recorded check) (List.enumerate i provinces)"
proof (induction provinces arbitrary: i)
  case Nil
  then show ?case by (simp add: List.map_filter_simps)
next
  case (Cons p ps)
  from Cons [of "Suc i"] show ?case
    by (cases "check i p")
      (auto simp: Let_def List.map_filter_simps recorded_def
        split: prod.splits option.splits returned.splits)
qed

text \<open>
  Claim C8. In a cycle every configured province is checked, in order and once, and each
  check is followed by the pause of two seconds, whatever the checks and the
  notifications return or raise; the appointments recorded are the non-empty results of
  the checks that returned one. The cycle itself returns in every case. In the browser
  variant this holds when the browser is there or can be started.
\<close>

theorem cycle_checks_every_province:
  "(case run_single_check_requests check notify log_handler provinces consecutive_failures of
      (evs, found, failures) \<Rightarrow>
        cycle_complete check provinces evs found \<and> (\<forall>p \<in> set provinces. Checked p \<in> set evs)) \<and>
   (has_browser \<or> initialize_browser_ok \<longrightarrow>
      (case run_single_check check notify has_browser initialize_browser_ok provinces of
         (evs, found) \<Rightarrow>
           cycle_complete check provinces evs found \<and> (\<forall>p \<in> set provinces. Checked p \<in> set evs)))"
proof -
  let ?evs = "fst (check_all check notify 0 provinces)"
  let ?found = "snd (check_all check notify 0 provinces)"
  from check_all_complete [of check notify 0 provinces]
  have c: "cycle_complete check provinces ?evs ?found" by (simp add: cycle_complete_def)
  have "\<forall>p \<in> set provinces. Checked p \<in> set ?evs"
  proof
    fix p assume "p \<in> set provinces"
    then have "Checked p \<in> set (concat (map (\<lambda>p. [Checked p, Paused 2]) provinces))" by auto
    with c have "Checked p \<in> set (filter (\<lambda>e. \<not> is_notification e) ?evs)"
      by (simp add: cycle_complete_def)
    then show "Checked p \<in> set ?evs" by simp
  qed
  with c show ?thesis
    by (auto simp: run_single_check_requests_def run_single_check_def split: prod.splits)
qed

theorem cycle_checks_every_province_witness:
  "run_single_check_requests second_raises notify_fails None [''A'', ''B'', ''C''] 4 =
     ([Checked ''A'', Paused 2, Checked ''B'', Paused 2, Checked ''C'',
       Notified ''C'' [(''province'', PStr ''C'')], Paused 2],
      [[(''province'', PStr ''C'')]], 0) \<and>
   cycle_complete second_raises [''A'', ''B'', ''C'']
     [Checked ''A'', Paused 2, Checked ''B'', Paused 2, Checked ''C'',
       Notified ''C'' [(''province'', PStr ''C'')], Paused 2]
     [[(''province'', PStr ''C'')]] \<and>
   run_single_check scenario_checker notify_fails False True [''A'', ''B'', ''C''] =
     ([Checked ''A'', Paused 2, Checked ''B'', Paused 2, Checked ''C'', Paused 2], []) \<and>
   cycle_complete scenario_checker [''A'', ''B'', ''C'']
     [Checked ''A'', Paused 2, Checked ''B'', Paused 2, Checked ''C'', Paused 2] []"
proof -
  have run: "run_single_check_requests second_raises notify_fails None [''A'', ''B'', ''C''] 4 =
     ([Checked ''A'', Paused 2, Checked ''B'', Paused 2, Checked ''C'',
       Notified ''C'' [(''province'', PStr ''C'')], Paused 2],
      [[(''province'', PStr ''C'')]], 0)"
    by code_simp
  have run': "run_single_check scenario_checker notify_fails False True [''A'', ''B'', ''C''] =
     ([Checked ''A'', Paused 2, Checked ''B'', Paused 2, Checked ''C'', Paused 2], [])"
    by code_simp
  from cycle_checks_every_province [where check = second_raises and notify = notify_fails
      and log_handler = None and provinces = "[''A'', ''B'', ''C'']" and consecutive_failures = 4,
      THEN conjunct1]
  have 1: "cycle_complete second_raises [''A'', ''B'', ''C'']
     [Checked ''A'', Paused 2, Checked ''B'', Paused 2, Checked ''C'',
       Notified ''C'' [(''province'', PStr ''C'')], Paused 2]
     [[(''province'', PStr ''C'')]]"
    unfolding run by simp
  from cycle_checks_every_province [where check = scenario_checker and notify = notify_fails
      and provinces = "[''A'', ''B'', ''C'']" and has_browser = False
      and initialize_browser_ok = True, THEN conjunct2]
  have 2: "cycle_complete scenario_checker [''A'', ''B'', ''C'']
     [Checked ''A'', Paused 2, Checked ''B'', Paused 2, Checked ''C'', Paused 2] []"
    unfolding run' by simp
  from run run' 1 2 show ?thesis by blast
qed

end
